theory Spec2Isabelle
  imports Complex_Main "HOL-Library.Char_ord" "HOL-Library.List_Lexorder"
begin

section \<open>Python values, strings and exceptions\<close>

text \<open>
  The three scripts of the repository are embedded function by function.  A Python
  \<open>str\<close> is a \<open>string\<close>, for the strings whose code points are below 256; a character
  stands for its code point, and the order on
  strings (\<open>List_Lexorder\<close> over \<open>Char_ord\<close>) is Python's comparison of \<open>str\<close>,
  which \<open>sorted\<close> and the \<open>groupby\<close> of pandas use.

  Library functions whose results cannot be computed here (\<open>ast.literal_eval\<close>,
  \<open>float\<close>, float arithmetic and formatting, \<open>repr\<close>, \<open>datetime.fromisoformat\<close>)
  are fields of the record \<open>pylib\<close>, so that every theorem holds for whatever
  these functions return.
\<close>

text \<open>An exception is known by the class that the handlers of the scripts tell apart; a
  subclass that no handler names counts as its class (\<open>json.JSONDecodeError\<close> is a
  \<open>ValueError\<close>).  \<open>RequestException\<close> of the library \<open>requests\<close> is a subclass of
  \<open>IOError\<close>, and the handlers at the end of the ingestion script tell the two apart.\<close>

datatype py_exc =
    TypeError | ValueError | SyntaxError | KeyError | IndexError | AttributeError
  | IOError | CsvError | RequestException | OtherException


text \<open>The values \<open>ast.literal_eval\<close> and \<open>json\<close> decoding produce.  A float and a complex
  number are kept as their \<open>repr\<close>; a dict is its items and a set its elements, in
  iteration order.\<close>

datatype pyval =
    PNone | PEllipsis | PBool bool | PInt int | PFloat string | PComplex string
  | PStr string | PBytes "nat list"
  | PList "pyval list" | PTuple "pyval list" | PSet "pyval list"
  | PDict "(pyval \<times> pyval) list"

subsection \<open>String methods\<close>

text \<open>\<open>s.split(c)\<close> for a separator of one character.\<close>

fun py_split :: "char \<Rightarrow> string \<Rightarrow> string list" where
  "py_split c [] = [[]]"
| "py_split c (x # xs) =
     (if x = c then [] # py_split c xs
      else (case py_split c xs of [] \<Rightarrow> [[x]] | p # ps \<Rightarrow> (x # p) # ps))"

text \<open>\<open>str.isspace\<close> on the code points below 256.\<close>

definition py_isspace :: "char \<Rightarrow> bool" where
  "py_isspace c = (of_char c \<in> {9, 10, 11, 12, 13, 28, 29, 30, 31, 32, 133, 160 :: nat})"

text \<open>\<open>s.strip(chars)\<close>: drop the characters satisfying \<open>P\<close> from both ends.\<close>

definition py_strip :: "(char \<Rightarrow> bool) \<Rightarrow> string \<Rightarrow> string" where
  "py_strip P s = rev (dropWhile P (rev (dropWhile P s)))"

fun starts_with :: "string \<Rightarrow> string \<Rightarrow> bool" where
  "starts_with [] s = True"
| "starts_with (p # ps) [] = False"
| "starts_with (p # ps) (x # xs) = (p = x \<and> starts_with ps xs)"

text \<open>\<open>s.replace(old, new)\<close> for a non-empty \<open>old\<close>: the occurrences are replaced from
  left to right, without overlap.\<close>

function py_replace :: "string \<Rightarrow> string \<Rightarrow> string \<Rightarrow> string" where
  "py_replace old new s =
     (if s = [] \<or> old = [] then s
      else if starts_with old s then new @ py_replace old new (drop (length old) s)
      else hd s # py_replace old new (tl s))"
  by pat_completeness auto
termination
  by (relation "measure (\<lambda>(old, new, s). length s)") auto

declare py_replace.simps [simp del]

subsection \<open>Cells of a DataFrame column\<close>

text \<open>A cell read by \<open>pandas.read_csv\<close> is a \<open>str\<close>, or a value of another type (a number,
  or NaN for an empty cell), which is kept as what \<open>str()\<close> makes of it.\<close>

datatype cell = Str string | NonStr string

fun cell_text :: "cell \<Rightarrow> string" where
  "cell_text (Str s) = s"
| "cell_text (NonStr s) = s"

section \<open>avg\_pools.py: the date normalizer\<close>

text \<open>The body of the \<open>try\<close> of \<open>extract_date\<close>: \<open>[0]\<close> on an empty list raises.\<close>

definition extract_date_try :: "cell \<Rightarrow> py_exc + string" where
  "extract_date_try date_str =
     (let parts = (if CHR ''T'' \<in> set (cell_text date_str)
                   then py_split (CHR ''T'') (cell_text date_str)
                   else py_split (CHR '' '') (cell_text date_str))
      in case parts of [] \<Rightarrow> Inl IndexError | date_part # _ \<Rightarrow> Inr date_part)"

definition extract_date :: "cell \<Rightarrow> string" where
  "extract_date date_str =
     (case extract_date_try date_str of
        Inr date_part \<Rightarrow> date_part
      | Inl _ \<Rightarrow> cell_text date_str)"

text \<open>The two timestamp forms of the specification, \<open>YYYY-MM-DD\<close>, a separator, and
  \<open>HH:MM:SS\<close> with an optional fraction of a second.\<close>

definition is_digit :: "char \<Rightarrow> bool" where
  "is_digit c = (c \<in> set ''0123456789'')"

fun iso_date :: "string \<Rightarrow> bool" where
  "iso_date [y1, y2, y3, y4, a, m1, m2, b, d1, d2] =
     (list_all is_digit [y1, y2, y3, y4, m1, m2, d1, d2] \<and> a = CHR ''-'' \<and> b = CHR ''-'')"
| "iso_date _ = False"

fun iso_time :: "string \<Rightarrow> bool" where
  "iso_time (h1 # h2 # a # m1 # m2 # b # s1 # s2 # rest) =
     (list_all is_digit [h1, h2, m1, m2, s1, s2] \<and> a = CHR '':'' \<and> b = CHR '':'' \<and>
      (rest = [] \<or> (hd rest = CHR ''.'' \<and> tl rest \<noteq> [] \<and> list_all is_digit (tl rest))))"
| "iso_time _ = False"

definition date_time_form :: "char \<Rightarrow> string \<Rightarrow> bool" where
  "date_time_form sep s =
     (iso_date (take 10 s) \<and> 10 < length s \<and> s ! 10 = sep \<and> iso_time (drop 11 s))"


section \<open>avg\_pools.py: the record parser\<close>

text \<open>The operations of the Python library that the scripts call and that are not
  computed here.  \<open>'f\<close> is the type of Python's \<open>float\<close>.\<close>

record 'f pylib =
  literal_eval :: "string \<Rightarrow> py_exc + pyval"
    \<comment> \<open>\<open>ast.literal_eval(s)\<close>: the value, or the exception raised\<close>
  py_float :: "string \<Rightarrow> 'f option"
    \<comment> \<open>\<open>float(s)\<close>; \<open>None\<close> stands for \<open>ValueError\<close>\<close>
  repr_other :: "pyval \<Rightarrow> string"
    \<comment> \<open>\<open>str(v)\<close> for a value that is no \<open>str\<close>, \<open>int\<close>, \<open>bool\<close> or \<open>None\<close>\<close>
  key_eq_other :: "pyval \<Rightarrow> pyval \<Rightarrow> bool"
    \<comment> \<open>\<open>a == b\<close> between hashable values neither of which is a \<open>str\<close>\<close>
  sorted_other :: "pyval list \<Rightarrow> py_exc + pyval list"
    \<comment> \<open>\<open>sorted(ks)\<close> when not every element is a \<open>str\<close>\<close>
  fsum :: "'f list \<Rightarrow> 'f"
    \<comment> \<open>\<open>sum(values)\<close> on a non-empty list of floats\<close>
  fdiv :: "'f \<Rightarrow> nat \<Rightarrow> 'f"
    \<comment> \<open>\<open>x / n\<close> for a float \<open>x\<close> and the length \<open>n > 0\<close> of a list\<close>
  fmt4 :: "'f \<Rightarrow> string"
    \<comment> \<open>the format \<open>{x:.4f}\<close>\<close>
  fromisoformat :: "string \<Rightarrow> string option"
    \<comment> \<open>\<open>datetime.fromisoformat(s).strftime("%Y-%m-%d %H:%M:%S")\<close>;
        \<open>None\<close> stands for \<open>ValueError\<close>\<close>

text \<open>\<open>str(n)\<close> for an \<open>int\<close>.\<close>

definition digit_char :: "nat \<Rightarrow> char" where
  "digit_char d = ''0123456789'' ! d"

function show_nat :: "nat \<Rightarrow> string" where
  "show_nat n =
     (if n < 10 then [digit_char n]
      else show_nat (n div 10) @ [digit_char (n mod 10)])"
  by pat_completeness auto
termination
  by (relation "measure (\<lambda>n. n)") auto

declare show_nat.simps [simp del]

definition show_int :: "int \<Rightarrow> string" where
  "show_int i = (if i < 0 then CHR ''-'' # show_nat (nat (- i)) else show_nat (nat i))"

fun py_str :: "'f pylib \<Rightarrow> pyval \<Rightarrow> string" where
  "py_str env (PStr s) = s"
| "py_str env PNone = ''None''"
| "py_str env (PBool b) = (if b then ''True'' else ''False'')"
| "py_str env (PInt i) = show_int i"
| "py_str env v = repr_other env v"

text \<open>\<open>for item in v\<close>: the items, or the \<open>TypeError\<close> of a value that is not iterable.\<close>

fun py_iter :: "pyval \<Rightarrow> py_exc + pyval list" where
  "py_iter (PList xs) = Inr xs"
| "py_iter (PTuple xs) = Inr xs"
| "py_iter (PSet xs) = Inr xs"
| "py_iter (PDict kvs) = Inr (map fst kvs)"
| "py_iter (PStr s) = Inr (map (\<lambda>c. PStr [c]) s)"
| "py_iter (PBytes bs) = Inr (map (\<lambda>b. PInt (int b)) bs)"
| "py_iter _ = Inl TypeError"

fun hashable :: "pyval \<Rightarrow> bool" where
  "hashable (PList _) = False"
| "hashable (PSet _) = False"
| "hashable (PDict _) = False"
| "hashable (PTuple xs) = (\<forall>x \<in> set xs. hashable x)"
| "hashable _ = True"

fun is_str :: "pyval \<Rightarrow> bool" where
  "is_str (PStr _) = True"
| "is_str _ = False"

fun str_of :: "pyval \<Rightarrow> string" where
  "str_of (PStr s) = s"
| "str_of _ = []"

text \<open>Equality of dictionary keys: a \<open>str\<close> equals only the same \<open>str\<close>.\<close>

definition py_eq :: "'f pylib \<Rightarrow> pyval \<Rightarrow> pyval \<Rightarrow> bool" where
  "py_eq env a b = (if is_str a \<or> is_str b then a = b else key_eq_other env a b)"

text \<open>A \<open>dict\<close> with float values is the list of its items, in insertion order.\<close>

type_synonym 'f pool = "(pyval \<times> 'f) list"

definition dict_has :: "'f pylib \<Rightarrow> 'f pool \<Rightarrow> pyval \<Rightarrow> bool" where
  "dict_has env d k = (\<exists>kv \<in> set d. py_eq env (fst kv) k)"

definition dict_get :: "'f pylib \<Rightarrow> 'f pool \<Rightarrow> pyval \<Rightarrow> 'f option" where
  "dict_get env d k = map_option snd (find (\<lambda>kv. py_eq env (fst kv) k) d)"

definition dict_set :: "'f pylib \<Rightarrow> 'f pool \<Rightarrow> pyval \<Rightarrow> 'f \<Rightarrow> 'f pool" where
  "dict_set env d k v =
     (if dict_has env d k
      then map (\<lambda>kv. if py_eq env (fst kv) k then (fst kv, v) else kv) d
      else d @ [(k, v)])"

text \<open>The \<open>for\<close> loop of \<open>parse_pool_data\<close>.  An item that is no \<open>dict\<close> or lacks
  \<open>'key'\<close> or \<open>'value'\<close> is passed over; a \<open>ValueError\<close> of \<open>float\<close> is caught by the
  inner \<open>try\<close> (a warning is printed) and the loop goes on; storing under an unhashable
  key raises \<open>TypeError\<close>.\<close>

fun parse_items :: "'f pylib \<Rightarrow> 'f pool \<Rightarrow> pyval list \<Rightarrow> py_exc + 'f pool" where
  "parse_items env pool_data [] = Inr pool_data"
| "parse_items env pool_data (PDict item # rest) =
     (case (map_of item (PStr ''key''), map_of item (PStr ''value'')) of
        (Some k, Some v) \<Rightarrow>
          (let value_str = py_strip py_isspace (py_replace '' TLM'' [] (py_str env v))
           in case py_float env value_str of
                None \<Rightarrow> parse_items env pool_data rest
              | Some x \<Rightarrow>
                  if hashable k then parse_items env (dict_set env pool_data k x) rest
                  else Inl TypeError)
      | _ \<Rightarrow> parse_items env pool_data rest)"
| "parse_items env pool_data (_ # rest) = parse_items env pool_data rest"

text \<open>The body of the outer \<open>try\<close>, then the function with its handler.  \<open>ValueError\<close>
  (with its subclass \<open>json.JSONDecodeError\<close>) and \<open>SyntaxError\<close> are caught; they can only
  come from \<open>literal_eval\<close>, when \<open>pool_data\<close> is still empty.  Any other exception leaves
  the function.\<close>

definition parse_pool_data_try :: "'f pylib \<Rightarrow> cell \<Rightarrow> py_exc + 'f pool" where
  "parse_pool_data_try env pool_str =
     (case pool_str of
        NonStr _ \<Rightarrow> Inr []
      | Str s \<Rightarrow>
          if py_strip py_isspace s = [] then Inr []
          else
            (let clean_str = py_strip (\<lambda>c. c = CHR 0x27) (py_strip (\<lambda>c. c = CHR 0x22) s)
             in case literal_eval env clean_str of
                  Inl e \<Rightarrow> Inl e
                | Inr pool_list \<Rightarrow>
                    (case py_iter pool_list of
                       Inl e \<Rightarrow> Inl e
                     | Inr items \<Rightarrow> parse_items env [] items)))"

definition parse_pool_data :: "'f pylib \<Rightarrow> cell \<Rightarrow> py_exc + 'f pool" where
  "parse_pool_data env pool_str =
     (case parse_pool_data_try env pool_str of
        Inr pool_data \<Rightarrow> Inr pool_data
      | Inl e \<Rightarrow> if e = ValueError \<or> e = SyntaxError then Inr [] else Inl e)"

section \<open>avg\_pools.py: the daily aggregator\<close>

text \<open>\<open>all_keys.update(pool_data.keys())\<close> on a set kept as the list of its elements.\<close>

definition set_add :: "'f pylib \<Rightarrow> pyval list \<Rightarrow> pyval \<Rightarrow> pyval list" where
  "set_add env ks k = (if \<exists>k' \<in> set ks. py_eq env k' k then ks else ks @ [k])"

definition all_keys :: "'f pylib \<Rightarrow> 'f pool list \<Rightarrow> pyval list" where
  "all_keys env daily_pools =
     foldl (\<lambda>acc pool_data. foldl (set_add env) acc (map fst pool_data)) [] daily_pools"

text \<open>\<open>sorted(all_keys)\<close>: keys that are all \<open>str\<close> come out in ascending order.\<close>

definition py_sorted :: "'f pylib \<Rightarrow> pyval list \<Rightarrow> py_exc + pyval list" where
  "py_sorted env ks =
     (if \<forall>k \<in> set ks. is_str k then Inr (map PStr (sort (map str_of ks)))
      else sorted_other env ks)"

text \<open>The entry of one key: the values of the records that contain the key, their sum
  divided by their number, formatted.\<close>

definition values_of :: "'f pylib \<Rightarrow> 'f pool list \<Rightarrow> pyval \<Rightarrow> 'f list" where
  "values_of env daily_pools key = List.map_filter (\<lambda>pool_data. dict_get env pool_data key) daily_pools"

definition avg_entry :: "'f pylib \<Rightarrow> 'f pool list \<Rightarrow> pyval \<Rightarrow> (pyval \<times> string) list" where
  "avg_entry env daily_pools key =
     (let values = values_of env daily_pools key
      in if values \<noteq> []
         then [(key, fmt4 env (fdiv env (fsum env values) (length values)) @ '' TLM'')]
         else [])"

definition calculate_daily_averages ::
  "'f pylib \<Rightarrow> 'f pool list \<Rightarrow> py_exc + (pyval \<times> string) list" where
  "calculate_daily_averages env daily_pools =
     (if daily_pools = [] then Inr []
      else case py_sorted env (all_keys env daily_pools) of
             Inl e \<Rightarrow> Inl e
           | Inr keys \<Rightarrow> Inr (concat (map (avg_entry env daily_pools) keys)))"

text \<open>The columns of the raw table that \<open>process_csv_data\<close> reads, and the rows it writes.
  \<open>avgpool\<close> holds the list that \<open>json.dumps\<close> serialises, in its order.\<close>

record raw_row =
  date :: cell
  pool :: cell

record summary_row =
  row_id :: int
  day :: string
  avgpool :: "(pyval \<times> string) list"
  numberofentries :: nat

text \<open>\<open>df['pool'].apply(parse_pool_data)\<close>: the first exception ends the pass.\<close>

fun parse_all :: "'f pylib \<Rightarrow> raw_row list \<Rightarrow> py_exc + (string \<times> 'f pool) list" where
  "parse_all env [] = Inr []"
| "parse_all env (r # rs) =
     (case parse_pool_data env (pool r) of
        Inl e \<Rightarrow> Inl e
      | Inr parsed_pool \<Rightarrow>
          (case parse_all env rs of
             Inl e \<Rightarrow> Inl e
           | Inr rest \<Rightarrow> Inr ((extract_date (date r), parsed_pool) # rest)))"

text \<open>\<open>valid_rows.groupby('day')\<close>: the groups in ascending order of the day, each with
  its rows in their order.\<close>

definition groupby_day :: "(string \<times> 'a) list \<Rightarrow> (string \<times> 'a list) list" where
  "groupby_day rows =
     map (\<lambda>d. (d, map snd (filter (\<lambda>r. fst r = d) rows))) (sort (remdups (map fst rows)))"

text \<open>The loop over the groups, with its counter \<open>day_id\<close>.\<close>

fun summarise ::
  "'f pylib \<Rightarrow> int \<Rightarrow> (string \<times> 'f pool list) list \<Rightarrow> py_exc + summary_row list" where
  "summarise env day_id [] = Inr []"
| "summarise env day_id ((d, grp) # grps) =
     (case calculate_daily_averages env grp of
        Inl e \<Rightarrow> Inl e
      | Inr avg_pools \<Rightarrow>
          (case summarise env (day_id + 1) grps of
             Inl e \<Rightarrow> Inl e
           | Inr rest \<Rightarrow>
               Inr (\<lparr>row_id = day_id, day = d, avgpool = avg_pools,
                     numberofentries = length grp\<rparr> # rest)))"

text \<open>What a run of \<open>process_csv_data\<close> does to the output table, from the frame \<open>df\<close>
  that \<open>read_csv\<close> returned: it writes the rows, or returns before writing because the
  input has no rows, or an exception is caught by the handler at the end of the function
  and nothing is written.  Writing the output file is taken to succeed.\<close>

datatype 'a outcome = Written 'a | No_data | Aborted py_exc

definition valid_rows :: "(string \<times> 'f pool) list \<Rightarrow> (string \<times> 'f pool) list" where
  "valid_rows df = filter (\<lambda>r. 0 < length (snd r)) df"

definition process_csv_data :: "'f pylib \<Rightarrow> raw_row list \<Rightarrow> summary_row list outcome" where
  "process_csv_data env df =
     (if length df = 0 then No_data
      else case parse_all env df of
             Inl e \<Rightarrow> Aborted e
           | Inr parsed \<Rightarrow>
               (case summarise env 1 (groupby_day (valid_rows parsed)) of
                  Inl e \<Rightarrow> Aborted e
                | Inr daily_summary \<Rightarrow> Written daily_summary))"


text \<open>The entry that the aggregation prints for a key, from the list of its values.\<close>

definition avg_text :: "'f pylib \<Rightarrow> 'f list \<Rightarrow> string" where
  "avg_text env vals = fmt4 env (fdiv env (fsum env vals) (length vals)) @ '' TLM''"

text \<open>Notions used to state the properties of the aggregation.  A tier key is a \<open>str\<close>:
  \<open>str_keys\<close> says so of a parsed record.  \<open>parsed_pool\<close> is the mapping a pool field
  parses to, \<open>day_records\<close> the non-empty parsed records of the rows of one day, in the
  order of the rows: these are the rows that \<open>process_csv_data\<close> keeps for the day.\<close>

definition str_keys :: "'f pool \<Rightarrow> bool" where
  "str_keys p = (\<forall>kv \<in> set p. is_str (fst kv))"

definition parsed_pool :: "'f pylib \<Rightarrow> cell \<Rightarrow> 'f pool" where
  "parsed_pool env c = (case parse_pool_data env c of Inr p \<Rightarrow> p | Inl _ \<Rightarrow> [])"

definition day_records :: "'f pylib \<Rightarrow> raw_row list \<Rightarrow> string \<Rightarrow> 'f pool list" where
  "day_records env df d =
     filter (\<lambda>p. p \<noteq> [])
       (map (\<lambda>r. parsed_pool env (pool r)) (filter (\<lambda>r. extract_date (date r) = d) df))"

text \<open>The specification's count for \<open>numberofentries\<close>: the rows of the day whose pool
  field parsed successfully, that is, was decoded and read without any exception.\<close>

definition parsed_successfully :: "'f pylib \<Rightarrow> cell \<Rightarrow> bool" where
  "parsed_successfully env c =
     (case c of
        NonStr _ \<Rightarrow> False
      | Str s \<Rightarrow> py_strip py_isspace s \<noteq> [] \<and>
                 (case parse_pool_data_try env c of Inr _ \<Rightarrow> True | Inl _ \<Rightarrow> False))"

definition spec_numberofentries :: "'f pylib \<Rightarrow> raw_row list \<Rightarrow> string \<Rightarrow> nat" where
  "spec_numberofentries env df d =
     length (filter (\<lambda>r. extract_date (date r) = d \<and> parsed_successfully env (pool r)) df)"

section \<open>TLM\_Pools.py: ingestion into the raw table\<close>






definition sentinel :: string where
  "sentinel = ''Invalid timestamp''"
















section \<open>An instance of the library for the examples\<close>

text \<open>The examples are evaluated with exact rational numbers for the floats: \<open>float\<close>
  reads an unsigned decimal numeral, sums and quotients are exact, and \<open>{x:.4f}\<close> prints
  the nearest multiple of \<open>1/10000\<close>.  The amounts of the examples are multiples of \<open>1/4\<close>,
  on which binary floating point computes the same.  \<open>literal_eval\<close> is the table of its
  values on the strings that occur in the examples: pool fields in the notation of JSON
  and in the notation of \<open>repr\<close>, the integer \<open>5\<close> and a malformed literal; no example uses
  another string.\<close>

definition digit_val :: "char \<Rightarrow> nat" where
  "digit_val c = of_char c - 48"

definition digits_val :: "string \<Rightarrow> nat" where
  "digits_val s = foldl (\<lambda>n c. 10 * n + digit_val c) 0 s"

definition decimal :: "string \<Rightarrow> rat option" where
  "decimal s =
     (case py_split (CHR ''.'') s of
        [a] \<Rightarrow> if a \<noteq> [] \<and> list_all is_digit a then Some (of_nat (digits_val a)) else None
      | [a, b] \<Rightarrow>
          if a \<noteq> [] \<and> b \<noteq> [] \<and> list_all is_digit a \<and> list_all is_digit b
          then Some (of_nat (digits_val a) + of_nat (digits_val b) / 10 ^ length b)
          else None
      | _ \<Rightarrow> None)"

definition pad4 :: "string \<Rightarrow> string" where
  "pad4 s = replicate (4 - length s) (CHR ''0'') @ s"

definition fixed4 :: "rat \<Rightarrow> string" where
  "fixed4 x =
     show_nat (nat \<lfloor>x * 10000 + 1 / 2\<rfloor> div 10000) @ ''.'' @
     pad4 (show_nat (nat \<lfloor>x * 10000 + 1 / 2\<rfloor> mod 10000))"

definition entry_text :: "string \<times> string \<Rightarrow> string" where
  "entry_text kv = ''{\"key\":\"'' @ fst kv @ ''\",\"value\":\"'' @ snd kv @ '' TLM\"}''"

fun join_comma :: "string list \<Rightarrow> string" where
  "join_comma [] = []"
| "join_comma [x] = x"
| "join_comma (x # y # ys) = x @ '','' @ join_comma (y # ys)"

definition pool_text :: "(string \<times> string) list \<Rightarrow> string" where
  "pool_text kvs = ''['' @ join_comma (map entry_text kvs) @ '']''"

text \<open>The same list as \<open>str\<close> prints it, which is what ingestion writes to the raw table.\<close>

definition entry_repr :: "string \<times> string \<Rightarrow> string" where
  "entry_repr kv =
     [CHR ''{'', CHR 0x27] @ ''key'' @ [CHR 0x27] @ '': '' @ [CHR 0x27] @ fst kv @ [CHR 0x27] @
     '', '' @ [CHR 0x27] @ ''value'' @ [CHR 0x27] @ '': '' @ [CHR 0x27] @ snd kv @ '' TLM'' @
     [CHR 0x27, CHR ''}'']"

fun join_comma_space :: "string list \<Rightarrow> string" where
  "join_comma_space [] = []"
| "join_comma_space [x] = x"
| "join_comma_space (x # y # ys) = x @ '', '' @ join_comma_space (y # ys)"

definition pool_repr :: "(string \<times> string) list \<Rightarrow> string" where
  "pool_repr kvs = ''['' @ join_comma_space (map entry_repr kvs) @ '']''"

definition pool_value :: "(string \<times> string) list \<Rightarrow> pyval" where
  "pool_value kvs =
     PList (map (\<lambda>kv. PDict [(PStr ''key'', PStr (fst kv)),
                               (PStr ''value'', PStr (snd kv @ '' TLM''))]) kvs)"

definition samples :: "(string \<times> string) list list" where
  "samples =
     [[(''Rare'', ''0.5000'')],
      [(''Rare'', ''0.2500'')],
      [(''Epic'', ''1.5000''), (''Rare'', ''0.7500'')],
      []]"

definition sample_literal_eval :: "string \<Rightarrow> py_exc + pyval" where
  "sample_literal_eval s =
     (case find (\<lambda>kvs. pool_text kvs = s \<or> pool_repr kvs = s) samples of
        Some kvs \<Rightarrow> Inr (pool_value kvs)
      | None \<Rightarrow>
          if s = ''5'' then Inr (PInt 5)
          else if s = ''{not valid}'' then Inl ValueError
          else Inl SyntaxError)"

definition exact_lib :: "rat pylib" where
  "exact_lib =
     \<lparr>literal_eval = sample_literal_eval,
      py_float = decimal,
      repr_other =
        (\<lambda>v. case find (\<lambda>kvs. pool_value kvs = v) samples of
               Some kvs \<Rightarrow> pool_repr kvs
             | None \<Rightarrow> ''...''),
      key_eq_other = (=),
      sorted_other = (\<lambda>ks. Inl TypeError),
      fsum = sum_list,
      fdiv = (\<lambda>x n. x / of_nat n),
      fmt4 = fixed4,
      fromisoformat = (\<lambda>s. if date_time_form (CHR '' '') s \<and> length s = 19 then Some s else None)\<rparr>"





text \<open>A raw table for the examples: two days, a row whose pool field is the empty list,
  and a row with the date that ingestion writes for an invalid timestamp.\<close>

definition df_sample :: "raw_row list" where
  "df_sample =
     [\<lparr>date = Str ''2024-01-02 09:00:00'', pool = Str (pool_text [(''Rare'', ''0.5000'')])\<rparr>,
      \<lparr>date = Str ''2024-01-01T10:00:00'',
        pool = Str (pool_text [(''Epic'', ''1.5000''), (''Rare'', ''0.7500'')])\<rparr>,
      \<lparr>date = Str ''2024-01-01 11:00:00'', pool = Str (pool_text [(''Rare'', ''0.2500'')])\<rparr>,
      \<lparr>date = Str ''2024-01-01 12:00:00'', pool = Str (pool_text [])\<rparr>,
      \<lparr>date = Str sentinel, pool = Str (pool_text [(''Rare'', ''0.5000'')])\<rparr>]"

text \<open>What the aggregation writes for it.\<close>

definition out_sample :: "summary_row list" where
  "out_sample =
     [\<lparr>row_id = 1, day = ''2024-01-01'',
        avgpool = [(PStr ''Epic'', ''1.5000 TLM''), (PStr ''Rare'', ''0.5000 TLM'')],
        numberofentries = 2\<rparr>,
      \<lparr>row_id = 2, day = ''2024-01-02'', avgpool = [(PStr ''Rare'', ''0.5000 TLM'')],
        numberofentries = 1\<rparr>,
      \<lparr>row_id = 3, day = ''Invalid'', avgpool = [(PStr ''Rare'', ''0.5000 TLM'')],
        numberofentries = 1\<rparr>]"

section \<open>Properties of the date normalizer\<close>

lemma py_split_not_Nil: "py_split c s \<noteq> []"
  by (induction s) (auto split: list.splits)

lemma hd_py_split: "hd (py_split c s) = takeWhile (\<lambda>x. x \<noteq> c) s"
  using py_split_not_Nil [of c] by (induction s) (auto split: list.splits)

lemma extract_date_try_takeWhile:
  "extract_date_try d =
     Inr (if CHR ''T'' \<in> set (cell_text d)
          then takeWhile (\<lambda>x. x \<noteq> CHR ''T'') (cell_text d)
          else takeWhile (\<lambda>x. x \<noteq> CHR '' '') (cell_text d))"
proof -
  have "\<And>c s. (case py_split c s of [] \<Rightarrow> Inl IndexError | p # _ \<Rightarrow> Inr p)
           = (Inr (takeWhile (\<lambda>x. x \<noteq> c) s) :: py_exc + string)"
    using py_split_not_Nil hd_py_split
    by (metis list.sel(1) list.simps(5) neq_Nil_conv)
  then show ?thesis
    by (simp add: extract_date_try_def)
qed

lemma extract_date_takeWhile:
  "extract_date d =
     (if CHR ''T'' \<in> set (cell_text d)
      then takeWhile (\<lambda>x. x \<noteq> CHR ''T'') (cell_text d)
      else takeWhile (\<lambda>x. x \<noteq> CHR '' '') (cell_text d))"
  by (simp add: extract_date_def extract_date_try_takeWhile)

lemma is_digit_not_sep: "is_digit c \<Longrightarrow> c \<noteq> CHR ''T'' \<and> c \<noteq> CHR '' ''"
  by (auto simp: is_digit_def)

lemma iso_date_chars:
  assumes "iso_date d"
  shows "length d = 10 \<and> CHR ''T'' \<notin> set d \<and> CHR '' '' \<notin> set d"
  using assms
  by (induction d rule: iso_date.induct) (auto dest: is_digit_not_sep)

lemma iso_time_chars:
  assumes "iso_time t"
  shows "CHR ''T'' \<notin> set t"
  using assms
proof (induction t rule: iso_time.induct)
  case (1 h1 h2 a m1 m2 b s1 s2 rest)
  then have "CHR ''T'' \<notin> set rest"
    by (cases rest) (auto simp: list_all_iff dest: is_digit_not_sep)
  with 1 show ?case by (auto dest: is_digit_not_sep)
qed simp_all

lemma date_time_form_split:
  assumes "date_time_form sep s"
  shows "s = take 10 s @ sep # drop 11 s"
proof -
  from assms have "10 < length s" "s ! 10 = sep" by (simp_all add: date_time_form_def)
  then have "drop 10 s = sep # drop 11 s"
    using Cons_nth_drop_Suc [of 10 s] by simp
  then show ?thesis by (metis append_take_drop_id)
qed

lemma extract_date_form:
  assumes "date_time_form sep s" "sep = CHR ''T'' \<or> sep = CHR '' ''"
  shows "extract_date (Str s) = take 10 s"
proof -
  let ?d = "take 10 s" and ?t = "drop 11 s"
  from assms(1) have d: "iso_date ?d" and t: "iso_time ?t" by (simp_all add: date_time_form_def)
  have s: "s = ?d @ sep # ?t" by (rule date_time_form_split [OF assms(1)])
  have nd: "CHR ''T'' \<notin> set ?d" "CHR '' '' \<notin> set ?d" using iso_date_chars [OF d] by simp_all
  have nt: "CHR ''T'' \<notin> set ?t" using iso_time_chars [OF t] .
  have tw: "\<And>c. c \<notin> set ?d \<Longrightarrow> c = sep \<Longrightarrow> takeWhile (\<lambda>x. x \<noteq> c) s = ?d"
  proof -
    fix c assume c: "c \<notin> set ?d" "c = sep"
    have "takeWhile (\<lambda>x. x \<noteq> c) (?d @ sep # ?t) = ?d"
      using c by (subst takeWhile_append2) auto
    with s show "takeWhile (\<lambda>x. x \<noteq> c) s = ?d" by simp
  qed
  from assms(2) show ?thesis
  proof
    assume T: "sep = CHR ''T''"
    then have "CHR ''T'' \<in> set s" using s by (metis in_set_conv_decomp)
    then show ?thesis using tw [OF nd(1)] T by (simp add: extract_date_takeWhile)
  next
    assume S: "sep = CHR '' ''"
    have "set s = set ?d \<union> {sep} \<union> set ?t" by (subst s) auto
    then have "CHR ''T'' \<notin> set s" using nd nt S by auto
    then show ?thesis using tw [OF nd(2)] S by (simp add: extract_date_takeWhile)
  qed
qed

text \<open>
  Claim C5, as amended.  On a timestamp of the form \<open>YYYY-MM-DD\<close>, separator, \<open>HH:MM:SS\<close>
  with the separator \<open>T\<close> or a space, \<open>extract_date\<close> returns the date part, the ten
  characters before the separator.  On any input the body of its \<open>try\<close> raises nothing, and
  the result is the part before the first \<open>T\<close> when the text contains a \<open>T\<close>, and otherwise
  the part before the first space; so the input comes back unchanged when it contains
  neither a \<open>T\<close> nor a space.
\<close>

theorem extract_date_contract:
  "(date_time_form sep s \<and> (sep = CHR ''T'' \<or> sep = CHR '' '') \<longrightarrow>
      extract_date (Str s) = take 10 s) \<and>
   (\<exists>date_part. extract_date_try c = Inr date_part \<and> extract_date c = date_part) \<and>
   extract_date c =
     (if CHR ''T'' \<in> set (cell_text c)
      then takeWhile (\<lambda>x. x \<noteq> CHR ''T'') (cell_text c)
      else takeWhile (\<lambda>x. x \<noteq> CHR '' '') (cell_text c)) \<and>
   (CHR ''T'' \<notin> set (cell_text c) \<and> CHR '' '' \<notin> set (cell_text c) \<longrightarrow>
      extract_date c = cell_text c)"
proof -
  have "CHR ''T'' \<notin> set (cell_text c) \<and> CHR '' '' \<notin> set (cell_text c) \<longrightarrow>
      extract_date c = cell_text c"
    by (auto simp: extract_date_takeWhile)
  moreover have "\<exists>date_part. extract_date_try c = Inr date_part \<and> extract_date c = date_part"
    by (simp add: extract_date_def extract_date_try_takeWhile)
  ultimately show ?thesis
    using extract_date_form [of sep s] extract_date_takeWhile [of c] by blast
qed


theorem extract_date_contract_witness:
  "date_time_form (CHR ''T'') ''2024-01-05T10:00:00'' \<and>
   extract_date (Str ''2024-01-05T10:00:00'') = ''2024-01-05'' \<and>
   date_time_form (CHR '' '') ''2024-01-05 10:00:00'' \<and>
   extract_date (Str ''2024-01-05 10:00:00'') = ''2024-01-05'' \<and>
   CHR ''T'' \<notin> set ''20240105'' \<and> CHR '' '' \<notin> set ''20240105'' \<and>
   extract_date (Str ''20240105'') = ''20240105''"
proof -
  have a: "date_time_form (CHR ''T'') ''2024-01-05T10:00:00''"
    by (simp add: date_time_form_def is_digit_def)
  have b: "date_time_form (CHR '' '') ''2024-01-05 10:00:00''"
    by (simp add: date_time_form_def is_digit_def)
  show ?thesis
    using a b
      extract_date_contract [of "CHR ''T''" "''2024-01-05T10:00:00''" "Str ''20240105''"]
      extract_date_contract [of "CHR '' ''" "''2024-01-05 10:00:00''" "Str ''20240105''"]
    by simp
qed

text \<open>
  Claim C5 as stated fails: a string that is not a timestamp of either form is not returned
  unchanged when it contains a space.
\<close>

theorem extract_date_unchanged_counterexample:
  "\<not> date_time_form (CHR ''T'') ''not a date'' \<and>
   \<not> date_time_form (CHR '' '') ''not a date'' \<and>
   extract_date (Str ''not a date'') = ''not'' \<and>
   extract_date (Str ''not a date'') \<noteq> ''not a date''"
  by (simp add: date_time_form_def extract_date_def extract_date_try_def is_digit_def)

section \<open>Properties of the aggregation\<close>

subsection \<open>Dictionaries with string keys\<close>

lemma py_eq_str:
  "is_str a \<Longrightarrow> py_eq env a b = (a = b)"
  "is_str b \<Longrightarrow> py_eq env a b = (a = b)"
  by (simp_all add: py_eq_def)

lemma dict_get_str: "is_str k \<Longrightarrow> dict_get env d k = map_of d k"
  by (induction d) (auto simp: dict_get_def py_eq_str)

lemma set_add_str:
  "is_str k \<Longrightarrow> set_add env ks k = (if k \<in> set ks then ks else ks @ [k])"
  by (auto simp: set_add_def py_eq_str)

lemma foldl_set_add:
  assumes "\<forall>k \<in> set ks. is_str k"
  shows "set (foldl (set_add env) acc ks) = set acc \<union> set ks \<and>
         (distinct acc \<longrightarrow> distinct (foldl (set_add env) acc ks))"
  using assms
  by (induction ks arbitrary: acc) (auto simp: set_add_str)

lemma all_keys_fold:
  assumes "\<forall>p \<in> set pools. str_keys p"
  shows "set (foldl (\<lambda>acc p. foldl (set_add env) acc (map fst p)) acc pools)
           = set acc \<union> (\<Union>p \<in> set pools. fst ` set p) \<and>
         (distinct acc \<longrightarrow>
            distinct (foldl (\<lambda>acc p. foldl (set_add env) acc (map fst p)) acc pools))"
  using assms
proof (induction pools arbitrary: acc)
  case Nil
  then show ?case by simp
next
  case (Cons p pools)
  have p: "\<forall>k \<in> set (map fst p). is_str k"
    using Cons.prems by (auto simp: str_keys_def)
  note step = foldl_set_add [OF p, of env acc]
  have rest: "\<forall>p \<in> set pools. str_keys p" using Cons.prems by simp
  note ih = Cons.IH [OF rest, of "foldl (set_add env) acc (map fst p)"]
  show ?case using step ih by auto
qed

lemma all_keys_str:
  assumes "\<forall>p \<in> set pools. str_keys p"
  shows "set (all_keys env pools) = (\<Union>p \<in> set pools. fst ` set p)"
    and "distinct (all_keys env pools)"
    and "\<forall>k \<in> set (all_keys env pools). is_str k"
proof -
  note f = all_keys_fold [OF assms, of env "[]"]
  show s: "set (all_keys env pools) = (\<Union>p \<in> set pools. fst ` set p)"
    using f by (simp add: all_keys_def)
  show "distinct (all_keys env pools)"
    using f by (simp add: all_keys_def)
  show "\<forall>k \<in> set (all_keys env pools). is_str k"
    using assms unfolding s by (auto simp: str_keys_def)
qed

lemma PStr_str_of: "is_str k \<Longrightarrow> PStr (str_of k) = k"
  by (cases k) simp_all

lemma py_sorted_str:
  assumes "\<forall>k \<in> set ks. is_str k"
  shows "py_sorted env ks = Inr (map PStr (sort (map str_of ks)))"
    and "set (map PStr (sort (map str_of ks))) = set ks"
    and "distinct ks \<Longrightarrow> distinct (map PStr (sort (map str_of ks)))"
proof -
  show "py_sorted env ks = Inr (map PStr (sort (map str_of ks)))"
    using assms by (simp add: py_sorted_def)
  have "(\<lambda>k. PStr (str_of k)) ` set ks = id ` set ks"
    by (rule image_cong) (use assms in \<open>simp_all add: PStr_str_of\<close>)
  then show "set (map PStr (sort (map str_of ks))) = set ks"
    by (simp add: image_image)
  assume d: "distinct ks"
  have "inj_on str_of (set ks)"
    by (rule inj_on_inverseI [where g = PStr]) (use assms in \<open>simp add: PStr_str_of\<close>)
  then have "distinct (map str_of ks)"
    using d by (simp add: distinct_map)
  then have "distinct (sort (map str_of ks))" by simp
  then show "distinct (map PStr (sort (map str_of ks)))"
    by (simp add: distinct_map inj_on_def)
qed

lemma concat_map_singleton: "concat (map (\<lambda>k. [f k]) xs) = map f xs"
  by (induction xs) simp_all

lemma values_of_str:
  "is_str k \<Longrightarrow> values_of env pools k = List.map_filter (\<lambda>p. map_of p k) pools"
  by (simp add: values_of_def dict_get_str)

lemma map_filter_nonempty:
  "p \<in> set pools \<Longrightarrow> f p = Some v \<Longrightarrow> List.map_filter f pools \<noteq> []"
  by (induction pools) (auto simp: List.map_filter_simps split: option.splits)

lemma calculate_str:
  assumes "\<forall>p \<in> set pools. str_keys p"
  shows "calculate_daily_averages env pools =
           Inr (map (\<lambda>k. (k, avg_text env (List.map_filter (\<lambda>p. map_of p k) pools)))
                  (map PStr (sort (map str_of (all_keys env pools)))))"
proof (cases "pools = []")
  case True
  then show ?thesis by (simp add: calculate_daily_averages_def all_keys_def)
next
  case False
  let ?ks = "all_keys env pools"
  let ?keys = "map PStr (sort (map str_of ?ks))"
  note ak = all_keys_str [OF assms, of env]
  have entry: "avg_entry env pools k = [(k, avg_text env (List.map_filter (\<lambda>p. map_of p k) pools))]"
    if "k \<in> set ?keys" for k
  proof -
    from that have k: "k \<in> set ?ks" using py_sorted_str(2) [OF ak(3)] by simp
    then have s: "is_str k" using ak(3) by simp
    from k obtain p where p: "p \<in> set pools" "k \<in> fst ` set p" using ak(1) by auto
    then obtain v where "map_of p k = Some v"
      by (metis domIff dom_map_of_conv_image_fst not_Some_eq)
    then have "List.map_filter (\<lambda>p. map_of p k) pools \<noteq> []"
      using p(1) by (rule map_filter_nonempty [rotated])
    then show ?thesis
      by (simp add: avg_entry_def values_of_str [OF s] avg_text_def Let_def)
  qed
  have "concat (map (avg_entry env pools) ?keys)
          = concat (map (\<lambda>k. [(k, avg_text env (List.map_filter (\<lambda>p. map_of p k) pools))]) ?keys)"
    using entry by (metis (mono_tags, lifting) map_eq_conv)
  also have "\<dots> = map (\<lambda>k. (k, avg_text env (List.map_filter (\<lambda>p. map_of p k) pools))) ?keys"
    by (rule concat_map_singleton)
  finally show ?thesis
    using False by (simp add: calculate_daily_averages_def py_sorted_str(1) [OF ak(3)])
qed

subsection \<open>The pass over the rows, the groups and the loop over them\<close>

lemma parse_all_Inr:
  assumes "parse_all env df = Inr parsed"
  shows "parsed = map (\<lambda>r. (extract_date (date r), parsed_pool env (pool r))) df"
    and "\<forall>r \<in> set df. parse_pool_data env (pool r) = Inr (parsed_pool env (pool r))"
  using assms
  by (induction df arbitrary: parsed) (auto simp: parsed_pool_def split: sum.splits)

lemma parse_all_total:
  assumes "\<forall>r \<in> set df. \<exists>p. parse_pool_data env (pool r) = Inr p"
  shows "\<exists>parsed. parse_all env df = Inr parsed"
  using assms by (induction df) (auto split: sum.splits)

lemma groupby_day_fst: "map fst (groupby_day rows) = sort (remdups (map fst rows))"
  by (simp add: groupby_day_def comp_def)

lemma groupby_day_snd:
  "g \<in> set (groupby_day rows) \<Longrightarrow> snd g = map snd (filter (\<lambda>r. fst r = fst g) rows)"
  by (auto simp: groupby_day_def)

lemma valid_rows_day:
  "map snd (filter (\<lambda>r. fst r = d)
      (valid_rows (map (\<lambda>r. (extract_date (date r), parsed_pool env (pool r))) df)))
   = day_records env df d"
  by (induction df) (simp_all add: valid_rows_def day_records_def)

lemma valid_rows_days:
  "map fst (valid_rows (map (\<lambda>r. (extract_date (date r), parsed_pool env (pool r))) df))
   = map (\<lambda>r. extract_date (date r)) (filter (\<lambda>r. parsed_pool env (pool r) \<noteq> []) df)"
  by (induction df) (simp_all add: valid_rows_def)

lemma length_day_records:
  "length (day_records env df d) =
     length (filter (\<lambda>r. extract_date (date r) = d \<and> parsed_pool env (pool r) \<noteq> []) df)"
  by (induction df) (simp_all add: day_records_def)

lemma summarise_rows:
  assumes "summarise env n groups = Inr out"
  shows "map day out = map fst groups"
    and "map row_id out = map (\<lambda>i. n + int i) [0..<length groups]"
    and "row \<in> set out \<Longrightarrow>
           \<exists>g \<in> set groups. day row = fst g \<and> numberofentries row = length (snd g) \<and>
             calculate_daily_averages env (snd g) = Inr (avgpool row)"
  using assms
proof (induction groups arbitrary: n out)
  case Nil
  { case 1 then show ?case by simp }
  { case 2 then show ?case by simp }
  { case 3 then show ?case by simp }
next
  case (Cons g groups)
  obtain d grp where g: "g = (d, grp)" by (cases g)
  { case 1
    then obtain a rest where r: "calculate_daily_averages env grp = Inr a"
        "summarise env (n + 1) groups = Inr rest"
        "out = \<lparr>row_id = n, day = d, avgpool = a, numberofentries = length grp\<rparr> # rest"
      by (auto simp: g split: sum.splits)
    then show ?case using Cons.IH(1) [OF r(2)] by (simp add: g) }
  { case 2
    then obtain a rest where r: "calculate_daily_averages env grp = Inr a"
        "summarise env (n + 1) groups = Inr rest"
        "out = \<lparr>row_id = n, day = d, avgpool = a, numberofentries = length grp\<rparr> # rest"
      by (auto simp: g split: sum.splits)
    have "map (\<lambda>i. n + int i) [0..<length (g # groups)]
            = n # map (\<lambda>i. n + 1 + int i) [0..<length groups]"
      by (simp add: upt_conv_Cons map_Suc_upt [symmetric] del: upt_Suc)
    then show ?case using Cons.IH(2) [OF r(2)] r(3) by simp }
  { case 3
    then obtain a rest where r: "calculate_daily_averages env grp = Inr a"
        "summarise env (n + 1) groups = Inr rest"
        "out = \<lparr>row_id = n, day = d, avgpool = a, numberofentries = length grp\<rparr> # rest"
      by (auto simp: g split: sum.splits)
    show ?case
    proof (cases "row \<in> set rest")
      case True
      then show ?thesis using Cons.IH(3) [OF True r(2)] by auto
    next
      case False
      then have "row = \<lparr>row_id = n, day = d, avgpool = a, numberofentries = length grp\<rparr>"
        using 3(1) r(3) by simp
      then show ?thesis using r(1) by (simp add: g)
    qed }
qed

lemma summarise_total:
  assumes "\<forall>g \<in> set groups. \<exists>a. calculate_daily_averages env (snd g) = Inr a"
  shows "\<exists>out. summarise env n groups = Inr out"
  using assms
proof (induction groups arbitrary: n)
  case Nil
  then show ?case by simp
next
  case (Cons g groups)
  obtain d grp where g: "g = (d, grp)" by (cases g)
  from Cons.prems obtain a where a: "calculate_daily_averages env grp = Inr a"
    by (auto simp: g)
  from Cons.prems have "\<forall>g \<in> set groups. \<exists>a. calculate_daily_averages env (snd g) = Inr a"
    by simp
  from Cons.IH [OF this, of "n + 1"] obtain rest
    where "summarise env (n + 1) groups = Inr rest" ..
  with a show ?case by (simp add: g)
qed

lemma row_ids_from_one: "map (\<lambda>i. 1 + int i) [0..<n] = map int [1..<Suc n]"
  by (induction n) simp_all

text \<open>What a completed run of \<open>process_csv_data\<close> has written.\<close>

lemma process_written:
  assumes "process_csv_data env df = Written out"
  shows "df \<noteq> []"
    and "\<forall>r \<in> set df. parse_pool_data env (pool r) = Inr (parsed_pool env (pool r))"
    and "map day out =
           sort (remdups (map (\<lambda>r. extract_date (date r))
                            (filter (\<lambda>r. parsed_pool env (pool r) \<noteq> []) df)))"
    and "map row_id out = map int [1..<Suc (length out)]"
    and "row \<in> set out \<Longrightarrow>
           numberofentries row = length (day_records env df (day row)) \<and>
           calculate_daily_averages env (day_records env df (day row)) = Inr (avgpool row)"
proof -
  let ?parsed = "map (\<lambda>r. (extract_date (date r), parsed_pool env (pool r))) df"
  from assms show ne: "df \<noteq> []"
    by (auto simp: process_csv_data_def)
  from assms ne obtain parsed where p: "parse_all env df = Inr parsed"
    and s: "summarise env 1 (groupby_day (valid_rows parsed)) = Inr out"
    by (auto simp: process_csv_data_def split: sum.splits)
  note pa = parse_all_Inr [OF p]
  show "\<forall>r \<in> set df. parse_pool_data env (pool r) = Inr (parsed_pool env (pool r))"
    by (rule pa(2))
  let ?groups = "groupby_day (valid_rows ?parsed)"
  from s pa(1) have s': "summarise env 1 ?groups = Inr out" by simp
  note sr = summarise_rows [OF s']
  show "map day out =
           sort (remdups (map (\<lambda>r. extract_date (date r))
                            (filter (\<lambda>r. parsed_pool env (pool r) \<noteq> []) df)))"
    using sr(1) by (simp add: groupby_day_fst valid_rows_days)
  have "length out = length ?groups"
    using sr(1) by (metis length_map)
  then show "map row_id out = map int [1..<Suc (length out)]"
    using sr(2) by (simp add: row_ids_from_one)
  assume "row \<in> set out"
  from sr(3) [OF this] obtain g where g: "g \<in> set ?groups" "day row = fst g"
      "numberofentries row = length (snd g)"
      "calculate_daily_averages env (snd g) = Inr (avgpool row)"
    by blast
  have "snd g = day_records env df (day row)"
    using groupby_day_snd [OF g(1)] g(2) by (simp add: valid_rows_day)
  then show "numberofentries row = length (day_records env df (day row)) \<and>
           calculate_daily_averages env (day_records env df (day row)) = Inr (avgpool row)"
    using g(3,4) by simp
qed

lemma day_records_str:
  assumes "\<forall>r \<in> set df. str_keys (parsed_pool env (pool r))"
  shows "\<forall>p \<in> set (day_records env df d). str_keys p"
  using assms by (auto simp: day_records_def)

lemma process_total:
  assumes "df \<noteq> []"
    and "\<forall>r \<in> set df. \<exists>p. parse_pool_data env (pool r) = Inr p \<and> str_keys p"
  shows "\<exists>out. process_csv_data env df = Written out"
proof -
  let ?parsed = "map (\<lambda>r. (extract_date (date r), parsed_pool env (pool r))) df"
  from assms(2) have "\<forall>r \<in> set df. \<exists>p. parse_pool_data env (pool r) = Inr p" by blast
  from parse_all_total [OF this] obtain parsed where p: "parse_all env df = Inr parsed" ..
  note pa = parse_all_Inr [OF p]
  have sk: "\<forall>r \<in> set df. str_keys (parsed_pool env (pool r))"
    using assms(2) by (auto simp: parsed_pool_def)
  have "\<forall>g \<in> set (groupby_day (valid_rows ?parsed)).
          \<exists>a. calculate_daily_averages env (snd g) = Inr a"
  proof
    fix g assume g: "g \<in> set (groupby_day (valid_rows ?parsed))"
    have "snd g = day_records env df (fst g)"
      using groupby_day_snd [OF g] by (simp add: valid_rows_day)
    then show "\<exists>a. calculate_daily_averages env (snd g) = Inr a"
      using calculate_str [OF day_records_str [OF sk, of "fst g"]] by simp
  qed
  from summarise_total [OF this, of 1] obtain out
    where "summarise env 1 (groupby_day (valid_rows ?parsed)) = Inr out" ..
  then show ?thesis
    using assms(1) p pa(1) by (simp add: process_csv_data_def)
qed

section \<open>The examples, evaluated\<close>

lemma decimal_samples:
  "decimal ''0.5000'' = Some (1 / 2)"
  "decimal ''0.2500'' = Some (1 / 4)"
  "decimal ''0.7500'' = Some (3 / 4)"
  "decimal ''1.5000'' = Some (3 / 2)"
  by (simp_all add: decimal_def digits_val_def digit_val_def is_digit_def)

lemma floor_samples:
  "\<lfloor>(10001 :: rat) / 2\<rfloor> = 5000"
  "\<lfloor>(30001 :: rat) / 2\<rfloor> = 15000"
  by (simp_all add: floor_eq_iff)

lemma show_nat_samples:
  "show_nat 0 = ''0''" "show_nat (Suc 0) = ''1''" "show_nat 1 = ''1''" "show_nat 5000 = ''5000''"
  by (simp_all add: show_nat.simps digit_char_def)

lemma fixed4_samples:
  "fixed4 (1 / 2) = ''0.5000''"
  "fixed4 (3 / 2) = ''1.5000''"
  by (simp_all add: fixed4_def pad4_def floor_samples show_nat_samples)

lemma sample_texts:
  "pool_text [(''Rare'', ''0.5000'')] = ''[{\"key\":\"Rare\",\"value\":\"0.5000 TLM\"}]''"
  "pool_text [] = ''[]''"
  by (simp_all add: pool_text_def entry_text_def)

lemma exact_lib_fields:
  "literal_eval exact_lib = sample_literal_eval"
  "py_float exact_lib = decimal"
  "fsum exact_lib = sum_list"
  "fdiv exact_lib = (\<lambda>x n. x / of_nat n)"
  "fmt4 exact_lib = fixed4"
  by (simp_all add: exact_lib_def)

lemma literal_eval_samples:
  "sample_literal_eval (pool_text [(''Rare'', ''0.5000'')]) = Inr (pool_value [(''Rare'', ''0.5000'')])"
  "sample_literal_eval (pool_text [(''Rare'', ''0.2500'')]) = Inr (pool_value [(''Rare'', ''0.2500'')])"
  "sample_literal_eval (pool_text [(''Epic'', ''1.5000''), (''Rare'', ''0.7500'')])
     = Inr (pool_value [(''Epic'', ''1.5000''), (''Rare'', ''0.7500'')])"
  "sample_literal_eval (pool_text []) = Inr (pool_value [])"
  "sample_literal_eval ''5'' = Inr (PInt 5)"
  "sample_literal_eval ''{not valid}'' = Inl ValueError"
  by (simp_all add: sample_literal_eval_def samples_def pool_text_def pool_repr_def
      entry_text_def entry_repr_def)

lemma strip_quotes_samples:
  "py_strip (\<lambda>c. c = CHR 0x27) (py_strip (\<lambda>c. c = CHR 0x22) (pool_text kvs)) = pool_text kvs"
  by (simp add: pool_text_def py_strip_def)

lemma not_blank_samples:
  "py_strip py_isspace (pool_text kvs) \<noteq> []"
  by (simp add: pool_text_def py_strip_def py_isspace_def)

lemma value_str_samples:
  "py_strip py_isspace (py_replace '' TLM'' [] ''0.5000 TLM'') = ''0.5000''"
  "py_strip py_isspace (py_replace '' TLM'' [] ''0.2500 TLM'') = ''0.2500''"
  "py_strip py_isspace (py_replace '' TLM'' [] ''0.7500 TLM'') = ''0.7500''"
  "py_strip py_isspace (py_replace '' TLM'' [] ''1.5000 TLM'') = ''1.5000''"
  by (simp_all add: py_strip_def py_isspace_def py_replace.simps)

lemma parse_samples:
  "parse_pool_data exact_lib (Str (pool_text [(''Rare'', ''0.5000'')])) = Inr [(PStr ''Rare'', 1 / 2)]"
  "parse_pool_data exact_lib (Str (pool_text [(''Rare'', ''0.2500'')])) = Inr [(PStr ''Rare'', 1 / 4)]"
  "parse_pool_data exact_lib (Str (pool_text [(''Epic'', ''1.5000''), (''Rare'', ''0.7500'')]))
     = Inr [(PStr ''Epic'', 3 / 2), (PStr ''Rare'', 3 / 4)]"
  "parse_pool_data exact_lib (Str (pool_text [])) = Inr []"
  by (simp_all add: parse_pool_data_def parse_pool_data_try_def exact_lib_fields
      literal_eval_samples strip_quotes_samples not_blank_samples pool_value_def
      value_str_samples decimal_samples dict_set_def dict_has_def py_eq_def)

lemma extract_date_samples:
  "extract_date (Str ''2024-01-02 09:00:00'') = ''2024-01-02''"
  "extract_date (Str ''2024-01-01T10:00:00'') = ''2024-01-01''"
  "extract_date (Str ''2024-01-01 11:00:00'') = ''2024-01-01''"
  "extract_date (Str ''2024-01-01 12:00:00'') = ''2024-01-01''"
  "extract_date (Str sentinel) = ''Invalid''"
  by (simp_all add: extract_date_takeWhile sentinel_def)

lemma parse_all_sample:
  "parse_all exact_lib df_sample =
     Inr [(''2024-01-02'', [(PStr ''Rare'', 1 / 2)]),
          (''2024-01-01'', [(PStr ''Epic'', 3 / 2), (PStr ''Rare'', 3 / 4)]),
          (''2024-01-01'', [(PStr ''Rare'', 1 / 4)]),
          (''2024-01-01'', []),
          (''Invalid'', [(PStr ''Rare'', 1 / 2)])]"
  by (simp add: df_sample_def parse_samples extract_date_samples)

lemma groups_sample:
  "groupby_day (valid_rows
     [(''2024-01-02'', [(PStr ''Rare'', 1 / 2 :: rat)]),
      (''2024-01-01'', [(PStr ''Epic'', 3 / 2), (PStr ''Rare'', 3 / 4)]),
      (''2024-01-01'', [(PStr ''Rare'', 1 / 4)]),
      (''2024-01-01'', []),
      (''Invalid'', [(PStr ''Rare'', 1 / 2)])])
   = [(''2024-01-01'', [[(PStr ''Epic'', 3 / 2), (PStr ''Rare'', 3 / 4)], [(PStr ''Rare'', 1 / 4)]]),
      (''2024-01-02'', [[(PStr ''Rare'', 1 / 2)]]),
      (''Invalid'', [[(PStr ''Rare'', 1 / 2)]])]"
  by (simp add: groupby_day_def valid_rows_def)


lemma averages_sample:
  "calculate_daily_averages exact_lib
     [[(PStr ''Epic'', 3 / 2), (PStr ''Rare'', 3 / 4)], [(PStr ''Rare'', 1 / 4)]]
   = Inr [(PStr ''Epic'', ''1.5000 TLM''), (PStr ''Rare'', ''0.5000 TLM'')]"
  "calculate_daily_averages exact_lib [[(PStr ''Rare'', 1 / 2)]]
   = Inr [(PStr ''Rare'', ''0.5000 TLM'')]"
  by (simp_all add: calculate_daily_averages_def all_keys_def set_add_def py_eq_def
      py_sorted_def avg_entry_def values_of_def dict_get_def List.map_filter_simps
      exact_lib_fields fixed4_samples)

lemma process_sample: "process_csv_data exact_lib df_sample = Written out_sample"
proof -
  have "length df_sample \<noteq> 0" by (simp add: df_sample_def)
  then show ?thesis
    by (simp add: process_csv_data_def parse_all_sample groups_sample averages_sample
        out_sample_def)
qed

section \<open>The claims about the aggregation\<close>

lemma filter_keyed:
  "distinct xs \<Longrightarrow> x \<in> set xs \<Longrightarrow> filter (\<lambda>e. fst e = x) (map (\<lambda>k. (k, f k)) xs) = [(x, f x)]"
  by (induction xs) (auto simp: filter_empty_conv)

lemma map_filter_the:
  "List.map_filter (\<lambda>p. map_of p k) ps =
     map (\<lambda>p. the (map_of p k)) (filter (\<lambda>p. k \<in> fst ` set p) ps)"
proof (induction ps)
  case Nil
  show ?case by (simp add: List.map_filter_simps)
next
  case (Cons p ps)
  have "map_of p k = None \<longleftrightarrow> k \<notin> fst ` set p"
    by (simp add: map_of_eq_None_iff)
  with Cons show ?case
    by (cases "map_of p k") (auto simp: List.map_filter_simps)
qed

text \<open>
  Claim C1.  In a completed run, take an output row, the non-empty parsed records
  \<open>day_records\<close> of its day, all with string keys, and a key \<open>k\<close> that one of them contains.
  The row has exactly one entry for \<open>k\<close>.  Its value is the formatted quotient of the sum
  of \<open>vals\<close> by the length of \<open>vals\<close>, where \<open>vals\<close> lists the values of \<open>k\<close> in the records
  of the day that contain \<open>k\<close>, and only in those: a record without \<open>k\<close> adds nothing to the
  sum and nothing to the divisor.
\<close>

theorem average_over_records_with_key:
  assumes "process_csv_data env df = Written out"
    and "row \<in> set out"
    and "\<forall>p \<in> set (day_records env df (day row)). str_keys p"
    and "p \<in> set (day_records env df (day row))"
    and "PStr k \<in> fst ` set p"
    and "vals = map (\<lambda>p. the (map_of p (PStr k)))
                  (filter (\<lambda>p. PStr k \<in> fst ` set p) (day_records env df (day row)))"
  shows "filter (\<lambda>e. fst e = PStr k) (avgpool row) =
           [(PStr k, fmt4 env (fdiv env (fsum env vals) (length vals)) @ '' TLM'')] \<and>
         length vals =
           length (filter (\<lambda>p. PStr k \<in> fst ` set p) (day_records env df (day row))) \<and>
         0 < length vals"
proof -
  let ?recs = "day_records env df (day row)"
  let ?keys = "map PStr (sort (map str_of (all_keys env ?recs)))"
  let ?f = "\<lambda>k. avg_text env (List.map_filter (\<lambda>p. map_of p k) ?recs)"
  note pw = process_written [OF assms(1)]
  from pw(5) [OF assms(2)] have "calculate_daily_averages env ?recs = Inr (avgpool row)"
    by simp
  then have a: "avgpool row = map (\<lambda>k. (k, ?f k)) ?keys"
    using calculate_str [OF assms(3), where env = env] by simp
  note ak = all_keys_str [OF assms(3), where env = env]
  have k: "PStr k \<in> set ?keys"
    using py_sorted_str(2) [OF ak(3)] ak(1) assms(4,5) by auto
  have d: "distinct ?keys"
    using py_sorted_str(3) [OF ak(3) ak(2)] .
  have v: "List.map_filter (\<lambda>p. map_of p (PStr k)) ?recs = vals"
    by (simp add: map_filter_the assms(6))
  have "filter (\<lambda>e. fst e = PStr k) (avgpool row) = [(PStr k, ?f (PStr k))]"
    unfolding a by (rule filter_keyed [OF d k])
  then have 1: "filter (\<lambda>e. fst e = PStr k) (avgpool row) =
           [(PStr k, fmt4 env (fdiv env (fsum env vals) (length vals)) @ '' TLM'')]"
    by (simp add: v avg_text_def)
  have 2: "length vals = length (filter (\<lambda>p. PStr k \<in> fst ` set p) ?recs)"
    by (simp add: assms(6))
  have "filter (\<lambda>p. PStr k \<in> fst ` set p) ?recs \<noteq> []"
    using assms(4,5) by (auto simp: filter_empty_conv)
  with 2 have 3: "0 < length vals" by simp
  from 1 2 3 show ?thesis by blast
qed


lemma day_records_sample:
  "day_records exact_lib df_sample ''2024-01-01'' =
     [[(PStr ''Epic'', 3 / 2), (PStr ''Rare'', 3 / 4)], [(PStr ''Rare'', 1 / 4)]]"
  "day_records exact_lib df_sample ''2024-01-02'' = [[(PStr ''Rare'', 1 / 2)]]"
  "day_records exact_lib df_sample ''Invalid'' = [[(PStr ''Rare'', 1 / 2)]]"
  by (simp_all add: day_records_def df_sample_def extract_date_samples parsed_pool_def
      parse_samples)

text \<open>
  On the example table the key \<open>Epic\<close> is in one of the two records of the first day: its
  average is taken over that one record.
\<close>

theorem average_over_records_with_key_witness:
  "process_csv_data exact_lib df_sample = Written out_sample \<and>
   day (hd out_sample) = ''2024-01-01'' \<and>
   day_records exact_lib df_sample ''2024-01-01'' =
     [[(PStr ''Epic'', 3 / 2), (PStr ''Rare'', 3 / 4)], [(PStr ''Rare'', 1 / 4)]] \<and>
   filter (\<lambda>e. fst e = PStr ''Epic'') (avgpool (hd out_sample)) =
     [(PStr ''Epic'', fmt4 exact_lib (fdiv exact_lib (fsum exact_lib [3 / 2]) 1) @ '' TLM'')] \<and>
   fmt4 exact_lib (fdiv exact_lib (fsum exact_lib [3 / 2]) 1) @ '' TLM'' = ''1.5000 TLM''"
proof -
  let ?recs = "[[(PStr ''Epic'', 3 / 2 :: rat), (PStr ''Rare'', 3 / 4)], [(PStr ''Rare'', 1 / 4)]]"
  have d: "day (hd out_sample) = ''2024-01-01''"
    by (simp add: out_sample_def)
  have r: "day_records exact_lib df_sample (day (hd out_sample)) = ?recs"
    by (simp add: d day_records_sample)
  have h2: "hd out_sample \<in> set out_sample"
    by (simp add: out_sample_def)
  have h3: "\<forall>p \<in> set (day_records exact_lib df_sample (day (hd out_sample))). str_keys p"
    by (simp add: r str_keys_def)
  have h4: "hd ?recs \<in> set (day_records exact_lib df_sample (day (hd out_sample)))"
    by (simp add: r)
  have h5: "PStr ''Epic'' \<in> fst ` set (hd ?recs)"
    by simp
  have h6: "[3 / 2 :: rat] = map (\<lambda>p. the (map_of p (PStr ''Epic'')))
              (filter (\<lambda>p. PStr ''Epic'' \<in> fst ` set p)
                 (day_records exact_lib df_sample (day (hd out_sample))))"
    by (simp add: r)
  have v: "fmt4 exact_lib (fdiv exact_lib (fsum exact_lib [3 / 2]) 1) @ '' TLM'' = ''1.5000 TLM''"
    by (simp add: exact_lib_fields fixed4_samples)
  from average_over_records_with_key [OF process_sample h2 h3 h4 h5 h6] d v
  show ?thesis
    by (simp add: process_sample day_records_sample)
qed

lemma strict_sorted_sort_remdups: "sorted_wrt (<) (sort (remdups (xs :: 'a :: linorder list)))"
  by (simp add: strict_sorted_iff)

text \<open>
  Claim C8.  On a table with at least one row, where every pool field parses without an
  exception to a mapping with string keys, \<open>process_csv_data\<close> writes its rows.  The days
  of the rows are exactly the days of the input rows with a non-empty parsed mapping; they
  are strictly ascending, so each day has one row; the ids are \<open>1, 2, 3, \<dots>\<close> in that order;
  and in each row the keys of \<open>avgpool\<close> are strictly ascending strings.
\<close>

theorem one_row_per_day_in_order:
  assumes "df \<noteq> []"
    and "\<forall>r \<in> set df. \<exists>p. parse_pool_data env (pool r) = Inr p \<and> str_keys p"
  shows "\<exists>out. process_csv_data env df = Written out \<and>
           set (map day out) =
             {extract_date (date r) | r. r \<in> set df \<and> parsed_pool env (pool r) \<noteq> []} \<and>
           sorted_wrt (<) (map day out) \<and>
           map row_id out = map int [1..<Suc (length out)] \<and>
           (\<forall>row \<in> set out.
              (\<forall>e \<in> set (avgpool row). is_str (fst e)) \<and>
              sorted_wrt (<) (map (\<lambda>e. str_of (fst e)) (avgpool row)))"
proof -
  from process_total [OF assms] obtain out
    where w: "process_csv_data env df = Written out" ..
  note pw = process_written [OF w]
  have sk: "\<forall>r \<in> set df. str_keys (parsed_pool env (pool r))"
    using assms(2) by (auto simp: parsed_pool_def)
  have 1: "set (map day out) =
             {extract_date (date r) | r. r \<in> set df \<and> parsed_pool env (pool r) \<noteq> []}"
    unfolding pw(3) by auto
  have 2: "sorted_wrt (<) (map day out)"
    unfolding pw(3) by (rule strict_sorted_sort_remdups)
  have 3: "(\<forall>e \<in> set (avgpool row). is_str (fst e)) \<and>
           sorted_wrt (<) (map (\<lambda>e. str_of (fst e)) (avgpool row))"
    if "row \<in> set out" for row
  proof -
    let ?recs = "day_records env df (day row)"
    let ?ks = "all_keys env ?recs"
    have s: "\<forall>p \<in> set ?recs. str_keys p" by (rule day_records_str [OF sk])
    from pw(5) [OF that] have "calculate_daily_averages env ?recs = Inr (avgpool row)"
      by simp
    then have "avgpool row =
        map (\<lambda>k. (k, avg_text env (List.map_filter (\<lambda>p. map_of p k) ?recs)))
          (map PStr (sort (map str_of ?ks)))"
      using calculate_str [OF s, where env = env] by simp
    then have "map fst (avgpool row) =
        map fst (map (\<lambda>k. (k, avg_text env (List.map_filter (\<lambda>p. map_of p k) ?recs)))
          (map PStr (sort (map str_of ?ks))))"
      by simp
    then have a: "map fst (avgpool row) = map PStr (sort (map str_of ?ks))"
      by (simp add: comp_def)
    note ak = all_keys_str [OF s, where env = env]
    have "set (map fst (avgpool row)) = set ?ks"
      unfolding a by (rule py_sorted_str(2) [OF ak(3)])
    then have i: "\<forall>e \<in> set (avgpool row). is_str (fst e)"
      using ak(3) by auto
    have "inj_on str_of (set ?ks)"
      by (rule inj_on_inverseI [where g = PStr]) (use ak(3) in \<open>simp add: PStr_str_of\<close>)
    then have "distinct (map str_of ?ks)"
      using ak(2) by (simp add: distinct_map)
    then have "sorted_wrt (<) (sort (map str_of ?ks))"
      by (simp add: strict_sorted_iff)
    moreover have "map (\<lambda>e. str_of (fst e)) (avgpool row) = map str_of (map fst (avgpool row))"
      by simp
    ultimately have "sorted_wrt (<) (map (\<lambda>e. str_of (fst e)) (avgpool row))"
      unfolding a by (simp add: comp_def)
    with i show ?thesis ..
  qed
  from w 1 2 pw(4) 3 show ?thesis by blast
qed


theorem one_row_per_day_in_order_witness:
  "df_sample \<noteq> [] \<and>
   list_all (\<lambda>r. \<exists>p. parse_pool_data exact_lib (pool r) = Inr p \<and> str_keys p) df_sample \<and>
   process_csv_data exact_lib df_sample = Written out_sample \<and>
   map day out_sample = [''2024-01-01'', ''2024-01-02'', ''Invalid''] \<and>
   sorted_wrt (<) (map day out_sample) \<and>
   map row_id out_sample = [1, 2, 3] \<and>
   list_all (\<lambda>row. sorted_wrt (<) (map (\<lambda>e. str_of (fst e)) (avgpool row))) out_sample"
proof -
  have h1: "df_sample \<noteq> []"
    by (simp add: df_sample_def)
  have h2: "\<forall>r \<in> set df_sample. \<exists>p. parse_pool_data exact_lib (pool r) = Inr p \<and> str_keys p"
    by (simp add: df_sample_def parse_samples str_keys_def)
  from one_row_per_day_in_order [OF h1 h2] obtain out
    where o: "process_csv_data exact_lib df_sample = Written out"
      "sorted_wrt (<) (map day out)"
      "\<forall>row \<in> set out. sorted_wrt (<) (map (\<lambda>e. str_of (fst e)) (avgpool row))"
    by blast
  from o(1) have e: "out = out_sample" by (simp add: process_sample)
  have m: "map day out_sample = [''2024-01-01'', ''2024-01-02'', ''Invalid'']"
    "map row_id out_sample = [1, 2, 3]"
    by (simp_all add: out_sample_def)
  from o h1 h2 m show ?thesis
    unfolding e by (simp add: list_all_iff)
qed

text \<open>
  Claim C2, as amended.  In a completed run no pool field has raised, and for every output
  row \<open>numberofentries\<close> is the number of input rows of the row's day whose parsed mapping is
  not empty; it is positive.  The days in the output are exactly the days that have such a
  row.
\<close>

theorem numberofentries_counts_nonempty:
  assumes "process_csv_data env df = Written out"
  shows "(\<forall>row \<in> set out.
            numberofentries row =
              length (filter (\<lambda>r. extract_date (date r) = day row \<and>
                                   parsed_pool env (pool r) \<noteq> []) df) \<and>
            0 < numberofentries row) \<and>
         (\<forall>r \<in> set df. parse_pool_data env (pool r) = Inr (parsed_pool env (pool r))) \<and>
         set (map day out) =
           {extract_date (date r) | r. r \<in> set df \<and> parsed_pool env (pool r) \<noteq> []}"
proof -
  note pw = process_written [OF assms]
  have days: "set (map day out) =
           {extract_date (date r) | r. r \<in> set df \<and> parsed_pool env (pool r) \<noteq> []}"
    unfolding pw(3) by auto
  have "numberofentries row =
              length (filter (\<lambda>r. extract_date (date r) = day row \<and>
                                   parsed_pool env (pool r) \<noteq> []) df) \<and>
            0 < numberofentries row" if r: "row \<in> set out" for row
  proof -
    have n: "numberofentries row =
              length (filter (\<lambda>r. extract_date (date r) = day row \<and>
                                   parsed_pool env (pool r) \<noteq> []) df)"
      using pw(5) [OF r] by (simp add: length_day_records)
    from r have "day row \<in> set (map day out)" by simp
    then obtain x where "x \<in> set df" "extract_date (date x) = day row"
        "parsed_pool env (pool x) \<noteq> []"
      unfolding days by auto
    then have "filter (\<lambda>r. extract_date (date r) = day row \<and>
                                   parsed_pool env (pool r) \<noteq> []) df \<noteq> []"
      by (auto simp: filter_empty_conv)
    with n show ?thesis by simp
  qed
  with pw(2) days show ?thesis by blast
qed

theorem numberofentries_counts_nonempty_witness:
  "process_csv_data exact_lib df_sample = Written out_sample \<and>
   map numberofentries out_sample =
     map (\<lambda>row. length (filter (\<lambda>r. extract_date (date r) = day row \<and>
                                      parsed_pool exact_lib (pool r) \<noteq> []) df_sample))
       out_sample \<and>
   map numberofentries out_sample = [2, 1, 1]"
proof -
  have n: "map numberofentries out_sample = [2, 1, 1]"
    by (simp add: out_sample_def)
  have "map numberofentries out_sample =
     map (\<lambda>row. length (filter (\<lambda>r. extract_date (date r) = day row \<and>
                                      parsed_pool exact_lib (pool r) \<noteq> []) df_sample))
       out_sample"
    using numberofentries_counts_nonempty [OF process_sample] by simp
  with n process_sample show ?thesis by blast
qed

lemma parse_try_samples:
  "parse_pool_data_try exact_lib (Str (pool_text [(''Epic'', ''1.5000''), (''Rare'', ''0.7500'')]))
     = Inr [(PStr ''Epic'', 3 / 2), (PStr ''Rare'', 3 / 4)]"
  "parse_pool_data_try exact_lib (Str (pool_text [(''Rare'', ''0.2500'')])) = Inr [(PStr ''Rare'', 1 / 4)]"
  "parse_pool_data_try exact_lib (Str (pool_text [])) = Inr []"
  by (simp_all add: parse_pool_data_try_def exact_lib_fields
      literal_eval_samples strip_quotes_samples not_blank_samples pool_value_def
      value_str_samples decimal_samples dict_set_def dict_has_def py_eq_def)

text \<open>
  Claim C2 as stated fails.  The example table has three rows on 2024-01-01 whose pool
  field parses without any exception; one of them is the empty list \<open>[]\<close>, which parses to
  the empty mapping, and \<open>numberofentries\<close> is 2.
\<close>

theorem numberofentries_counterexample:
  "process_csv_data exact_lib df_sample = Written out_sample \<and>
   day (hd out_sample) = ''2024-01-01'' \<and>
   numberofentries (hd out_sample) = 2 \<and>
   spec_numberofentries exact_lib df_sample ''2024-01-01'' = 3"
proof -
  have a: "spec_numberofentries exact_lib df_sample ''2024-01-01'' = 3"
    by (simp add: spec_numberofentries_def df_sample_def extract_date_samples
        parsed_successfully_def parse_try_samples not_blank_samples)
  have b: "day (hd out_sample) = ''2024-01-01''" "numberofentries (hd out_sample) = 2"
    by (simp_all add: out_sample_def)
  from process_sample a b show ?thesis by simp
qed

text \<open>
  Claim C10.  A row of the raw table whose date is the sentinel \<open>Invalid timestamp\<close> and
  whose parsed mapping is not empty is kept by the aggregation: its day is \<open>Invalid\<close>, and a
  completed run has an output row with the day \<open>Invalid\<close> that counts all such rows.
\<close>

theorem sentinel_rows_are_aggregated:
  assumes "process_csv_data env df = Written out"
    and "r \<in> set df"
    and "date r = Str sentinel"
    and "parsed_pool env (pool r) \<noteq> []"
  shows "extract_date (date r) = ''Invalid'' \<and>
         (\<exists>row \<in> set out. day row = ''Invalid'' \<and>
            numberofentries row =
              length (filter (\<lambda>r. extract_date (date r) = ''Invalid'' \<and>
                                   parsed_pool env (pool r) \<noteq> []) df) \<and>
            0 < numberofentries row)"
proof -
  note pw = process_written [OF assms(1)]
  have e: "extract_date (date r) = ''Invalid''"
    by (simp add: assms(3) extract_date_takeWhile sentinel_def)
  then have "''Invalid'' \<in> set (map day out)"
    unfolding pw(3) using assms(2,4) by force
  then obtain row where row: "row \<in> set out" "day row = ''Invalid''" by auto
  have n: "numberofentries row =
              length (filter (\<lambda>r. extract_date (date r) = ''Invalid'' \<and>
                                   parsed_pool env (pool r) \<noteq> []) df)"
    using pw(5) [OF row(1)] by (simp add: length_day_records row(2))
  have "filter (\<lambda>r. extract_date (date r) = ''Invalid'' \<and>
                                   parsed_pool env (pool r) \<noteq> []) df \<noteq> []"
    using assms(2,4) e by (auto simp: filter_empty_conv)
  with n have "0 < numberofentries row" by simp
  with e row n show ?thesis by blast
qed

theorem sentinel_rows_are_aggregated_witness:
  "process_csv_data exact_lib df_sample = Written out_sample \<and>
   last df_sample \<in> set df_sample \<and>
   date (last df_sample) = Str sentinel \<and>
   parsed_pool exact_lib (pool (last df_sample)) \<noteq> [] \<and>
   extract_date (date (last df_sample)) = ''Invalid'' \<and>
   (\<exists>row \<in> set out_sample. day row = ''Invalid'' \<and> 0 < numberofentries row)"
proof -
  have h2: "last df_sample \<in> set df_sample"
    by (simp add: df_sample_def)
  have h3: "date (last df_sample) = Str sentinel"
    by (simp add: df_sample_def)
  have h4: "parsed_pool exact_lib (pool (last df_sample)) \<noteq> []"
    by (simp add: df_sample_def parsed_pool_def parse_samples)
  from sentinel_rows_are_aggregated [OF process_sample h2 h3 h4] h2 h3 h4 process_sample
  show ?thesis
    by blast
qed

section \<open>Properties of ingestion\<close>














subsection \<open>The examples of ingestion, evaluated\<close>



















section \<open>The claim about the record parser\<close>

text \<open>What the parser does with a value that cannot be iterated, with a literal that
  cannot be decoded, and with a value that is no number.\<close>

lemma parse_not_iterable:
  assumes "py_strip py_isspace s \<noteq> []"
    and "literal_eval env (py_strip (\<lambda>c. c = CHR 0x27) (py_strip (\<lambda>c. c = CHR 0x22) s)) = Inr v"
    and "py_iter v = Inl TypeError"
  shows "parse_pool_data env (Str s) = Inl TypeError"
  using assms by (simp add: parse_pool_data_def parse_pool_data_try_def)

lemma parse_decode_failure:
  assumes "literal_eval env (py_strip (\<lambda>c. c = CHR 0x27) (py_strip (\<lambda>c. c = CHR 0x22) s)) = Inl e"
    and "e = ValueError \<or> e = SyntaxError"
  shows "parse_pool_data env (Str s) = Inr []"
  using assms by (auto simp: parse_pool_data_def parse_pool_data_try_def)

lemma parse_items_bad_value:
  assumes "py_float env (py_strip py_isspace (py_replace '' TLM'' [] (py_str env v))) = None"
  shows "parse_items env pool_data (PDict [(PStr ''key'', k), (PStr ''value'', v)] # rest)
           = parse_items env pool_data rest"
  using assms by simp

lemma parse_spec_examples:
  "parse_pool_data exact_lib (Str ''[{\"key\":\"Rare\",\"value\":\"0.5000 TLM\"}]'')
     = Inr [(PStr ''Rare'', 1 / 2)]"
  "parse_pool_data exact_lib (Str ''{not valid}'') = Inr []"
proof -
  show "parse_pool_data exact_lib (Str ''[{\"key\":\"Rare\",\"value\":\"0.5000 TLM\"}]'')
     = Inr [(PStr ''Rare'', 1 / 2)]"
    using parse_samples(1) by (simp add: sample_texts)
  have "py_strip (\<lambda>c. c = CHR 0x27) (py_strip (\<lambda>c. c = CHR 0x22) ''{not valid}'') = ''{not valid}''"
    by (simp add: py_strip_def)
  then show "parse_pool_data exact_lib (Str ''{not valid}'') = Inr []"
    using parse_decode_failure [of exact_lib "''{not valid}''" ValueError]
    by (simp add: exact_lib_fields literal_eval_samples)
qed

text \<open>
  Claim C3 fails on the code.  The pool field \<open>5\<close> decodes to the integer 5; iterating over
  it raises \<open>TypeError\<close>, which the handler of \<open>parse_pool_data\<close> does not list.  The exception
  leaves the parser and \<open>process_csv_data\<close> writes nothing, although the other row of
  the table parses.
\<close>

theorem parse_pool_data_type_error:
  "parse_pool_data exact_lib (Str ''5'') = Inl TypeError \<and>
   process_csv_data exact_lib
     [\<lparr>date = Str ''2024-01-02 09:00:00'', pool = Str (pool_text [(''Rare'', ''0.5000'')])\<rparr>,
      \<lparr>date = Str ''2024-01-02 10:00:00'', pool = Str ''5''\<rparr>]
   = Aborted TypeError"
proof -
  have s: "py_strip py_isspace ''5'' \<noteq> []"
    "py_strip (\<lambda>c. c = CHR 0x27) (py_strip (\<lambda>c. c = CHR 0x22) ''5'') = ''5''"
    by (simp_all add: py_strip_def py_isspace_def)
  have 1: "parse_pool_data exact_lib (Str ''5'') = Inl TypeError"
    by (rule parse_not_iterable [where v = "PInt 5"])
      (simp_all add: s exact_lib_fields literal_eval_samples)
  then show ?thesis
    by (simp add: process_csv_data_def parse_samples)
qed

end
